theory Spec2Isabelle
  imports Complex_Main "HOL-Library.Word"
begin

section \<open>Machine types of the target\<close>

text \<open>
  PlantTimer is an Arduino sketch for an 8-bit AVR board: \<^verbatim>\<open>byte\<close> has 8 bits,
  \<^verbatim>\<open>int\<close> and \<^verbatim>\<open>short\<close> have 16 bits, \<^verbatim>\<open>long\<close> and \<^verbatim>\<open>unsigned long\<close> have 32 bits, and the
  Time library declares \<^verbatim>\<open>time_t\<close> as \<^verbatim>\<open>unsigned long\<close>. All of them are words; a signed
  variable is read with \<open>sint\<close>, an unsigned one with \<open>unat\<close>. Mixed arithmetic follows
  the usual arithmetic conversions of C: an \<^verbatim>\<open>int\<close> operand of an \<^verbatim>\<open>unsigned long\<close>
  operation is sign-extended (\<open>scast\<close>), a \<^verbatim>\<open>byte\<close> operand is zero-extended (\<open>ucast\<close>), and
  the operation itself wraps modulo \<open>2 ^ 32\<close>.
\<close>

type_synonym byte = "8 word"
type_synonym int16 = "16 word"
type_synonym long = "32 word"
type_synonym ulong = "32 word"
type_synonym time_t = "32 word"

subsection \<open>Macros of the libraries the sketch includes\<close>

text \<open>
  The sketch uses a few macros of the Time library (\<^verbatim>\<open>SECS_PER_MIN\<close>, \<^verbatim>\<open>SECS_PER_HOUR\<close>,
  \<^verbatim>\<open>SECS_PER_DAY\<close>, \<^verbatim>\<open>elapsedDays\<close>), all of type \<^verbatim>\<open>unsigned long\<close>, the macro \<^verbatim>\<open>abs\<close> of the
  Arduino core, which is \<^verbatim>\<open>((x)>0?(x):-(x))\<close>, and the value \<^verbatim>\<open>DEVICE_DISCONNECTED_C\<close>
  that \<^verbatim>\<open>getTempC\<close> of the DallasTemperature library returns when the sensor cannot
  be read.
\<close>

definition SECS_PER_MIN :: ulong where
  "SECS_PER_MIN = 60"

definition SECS_PER_HOUR :: ulong where
  "SECS_PER_HOUR = 3600"

definition SECS_PER_DAY :: ulong where
  "SECS_PER_DAY = SECS_PER_HOUR * 24"

definition elapsedDays :: "ulong \<Rightarrow> ulong" where
  "elapsedDays t = t div SECS_PER_DAY"

definition abs_macro :: "ulong \<Rightarrow> ulong" where
  "abs_macro x = (if 0 < x then x else - x)"

definition DEVICE_DISCONNECTED_C :: real where
  "DEVICE_DISCONNECTED_C = - 127"

text \<open>
  \<^verbatim>\<open>breakTime\<close> splits a timestamp into calendar fields and \<^verbatim>\<open>makeTime\<close> puts them
  together again; the sketch overwrites hour, minute and second in between. The date
  fields survive the round trip, so the result is midnight of the day of \<open>t\<close> plus the
  new time of day, which \<^verbatim>\<open>makeTime\<close> adds as \<^verbatim>\<open>Hour * SECS_PER_HOUR + Minute * SECS_PER_MIN + Second\<close>.
\<close>

definition makeTime_at :: "time_t \<Rightarrow> byte \<Rightarrow> byte \<Rightarrow> byte \<Rightarrow> time_t" where
  "makeTime_at t h m s =
     (t div SECS_PER_DAY) * SECS_PER_DAY + ucast h * SECS_PER_HOUR + ucast m * SECS_PER_MIN + ucast s"

section \<open>Configuration and globals of the sketch\<close>

text \<open>
  The schedule parameters are initialised globals that the sketch never writes. They are
  collected in a record so that a property can range over every configuration;
  \<open>defaultConfig\<close> holds the values of \<^verbatim>\<open>PlantTimer.ino\<close>. The two-element arrays that are
  indexed by \<^verbatim>\<open>bloomLightStatus\<close> or by a literal are pairs.
\<close>

record config =
  growthLightScheme :: "int16 list"
  growthLightStartTimeHour :: byte
  growthLightStartTimeMinute :: byte
  bloomLightScheme :: "int16 \<times> int16"
  reductionOfDaytimeInMinutes :: byte
  prolongNighttimeInMinutes :: byte
  startOfDaytimeReduction :: byte
  sleepLightScheme :: "int16 \<times> int16"
  minRoomTemp :: int16
  exhaustFanHysteresis :: int16

definition GROWTH_LIGHT_PERIODS :: "config \<Rightarrow> nat" where
  "GROWTH_LIGHT_PERIODS cfg = length (growthLightScheme cfg)"

definition MAX_BLOOM_DAYS :: int16 where
  "MAX_BLOOM_DAYS = 120"

definition MIN_TIME :: ulong where
  "MIN_TIME = 1451606400"

definition defaultConfig :: config where
  "defaultConfig = \<lparr>
     growthLightScheme = [720, 330, 60, 330],
     growthLightStartTimeHour = 16,
     growthLightStartTimeMinute = 20,
     bloomLightScheme = (780, 690),
     reductionOfDaytimeInMinutes = 3,
     prolongNighttimeInMinutes = 0,
     startOfDaytimeReduction = 10,
     sleepLightScheme = (10, 15),
     minRoomTemp = 23,
     exhaustFanHysteresis = 2 \<rparr>"

text \<open>\<^verbatim>\<open>bloomLightScheme[bloomLightStatus]\<close>: index 0 for \<^verbatim>\<open>false\<close>, index 1 for \<^verbatim>\<open>true\<close>.\<close>

definition bloomLightSchemeAt :: "config \<Rightarrow> bool \<Rightarrow> int16" where
  "bloomLightSchemeAt cfg status = (if status then snd (bloomLightScheme cfg) else fst (bloomLightScheme cfg))"

datatype level = LOW | HIGH

definition RELAYON :: level where
  "RELAYON = LOW"

definition RELAYOFF :: level where
  "RELAYOFF = HIGH"

datatype handler =
  TurnOnGrowthLight | TurnOffGrowthLight
  | TurnOnBloomLight | TurnOffBloomLight
  | TurnOnSleepLight | TurnOffSleepLight

text \<open>
  The globals of the sketch, the relay pins it writes, the copy of \<^verbatim>\<open>storedSettings\<close> in
  the EEPROM, and the one-shot alarms handed to \<^verbatim>\<open>Alarm.timerOnce\<close>, newest first.
\<close>

record state =
  currentGrowthLightPeriod :: byte
  bloomDayCounter :: byte
  bloomLightStatus :: bool
  secondsToNextGrowthLightSwitch :: long
  secondsToNextBloomLightSwitch :: long
  secondsToNextSleepLightSwitch :: long
  fanThrottleActive :: bool
  bloomStart :: time_t
  eepromBloomStart :: time_t
  pinLight2 :: level
  pinLight3 :: level
  pinAirOutletThrottle :: level
  alarms :: "(ulong \<times> handler) list"

text \<open>
  The globals as their initialisers leave them at power-up, for a given EEPROM content.
  The first loop of \<^verbatim>\<open>setup\<close> makes pins 2 to 8 outputs and writes \<^verbatim>\<open>HIGH\<close> to them, which
  covers the relays of the bloom light (pin 5) and of the sleep light (pin 4). The relay
  of the exhaust fan throttle is on pin 9, which \<^verbatim>\<open>setup\<close> neither configures nor writes:
  its port bit keeps the value 0 of the reset, which is \<^verbatim>\<open>LOW\<close>.
\<close>

definition bootState :: "time_t \<Rightarrow> state" where
  "bootState stored = \<lparr>
     currentGrowthLightPeriod = 0,
     bloomDayCounter = 0,
     bloomLightStatus = False,
     secondsToNextGrowthLightSwitch = 0,
     secondsToNextBloomLightSwitch = 0,
     secondsToNextSleepLightSwitch = 0,
     fanThrottleActive = False,
     bloomStart = stored,
     eepromBloomStart = stored,
     pinLight2 = HIGH,
     pinLight3 = HIGH,
     pinAirOutletThrottle = LOW,
     alarms = [] \<rparr>"

section \<open>Growth light\<close>

text \<open>
  \<^verbatim>\<open>getGrowthLightPeriod\<close> walks the periods from the start time of the previous day. A
  \<^verbatim>\<open>while\<close> loop on wrapping counters need not end, so the walk is a partial function and
  \<open>None\<close> stands for a loop that runs forever. Reading \<^verbatim>\<open>growthLightScheme[count]\<close> with
  \<open>count\<close> outside the array is the error \<open>IndexOutOfRange\<close>. The variants of the sketch
  differ in the bound of the wrap-around test only (\<^verbatim>\<open>count < GROWTH_LIGHT_PERIODS-1\<close> in
  \<^verbatim>\<open>PlantTimer.ino\<close>, \<^verbatim>\<open>count < GROWTH_LIGHT_PERIODS\<close> in the older files), which is the
  parameter \<open>wrapBound\<close>.
\<close>

datatype error = IndexOutOfRange

partial_function (option) growthLoop ::
  "nat \<Rightarrow> config \<Rightarrow> time_t \<Rightarrow> ulong \<Rightarrow> byte \<Rightarrow> (error + ulong \<times> byte) option"
where
  "growthLoop wrapBound cfg timeNow sumOfGrowthLightPeriods count =
     (if sumOfGrowthLightPeriods \<le> timeNow then
        (if unat count < length (growthLightScheme cfg) then
           (if sumOfGrowthLightPeriods + scast (growthLightScheme cfg ! unat count) * SECS_PER_MIN \<le> timeNow
            then growthLoop wrapBound cfg timeNow
                   (sumOfGrowthLightPeriods + scast (growthLightScheme cfg ! unat count) * SECS_PER_MIN)
                   (if unat count < wrapBound then count + 1 else 0)
            else growthLoop wrapBound cfg timeNow
                   (sumOfGrowthLightPeriods + scast (growthLightScheme cfg ! unat count) * SECS_PER_MIN)
                   count)
         else Some (Inl IndexOutOfRange))
      else Some (Inr (sumOfGrowthLightPeriods, count)))"

declare growthLoop.simps [code]

definition growthWalk :: "nat \<Rightarrow> config \<Rightarrow> time_t \<Rightarrow> (error + ulong \<times> byte) option" where
  "growthWalk wrapBound cfg timeNow =
     growthLoop wrapBound cfg timeNow
       (makeTime_at timeNow (growthLightStartTimeHour cfg) (growthLightStartTimeMinute cfg) 0 - SECS_PER_DAY) 0"

definition growthResult :: "time_t \<Rightarrow> state \<Rightarrow> (error + ulong \<times> byte) option \<Rightarrow> (error + state) option" where
  "growthResult timeNow st r =
     (case r of
        None \<Rightarrow> None
      | Some (Inl e) \<Rightarrow> Some (Inl e)
      | Some (Inr (s, count)) \<Rightarrow>
          Some (Inr (st\<lparr>secondsToNextGrowthLightSwitch := s - timeNow, currentGrowthLightPeriod := count\<rparr>)))"

text \<open>\<^verbatim>\<open>PlantTimer.ino\<close>: \<^verbatim>\<open>if (count < GROWTH_LIGHT_PERIODS-1) count++; else count = 0;\<close>\<close>

definition getGrowthLightPeriod :: "config \<Rightarrow> time_t \<Rightarrow> state \<Rightarrow> (error + state) option" where
  "getGrowthLightPeriod cfg timeNow st =
     growthResult timeNow st (growthWalk (GROWTH_LIGHT_PERIODS cfg - 1) cfg timeNow)"

text \<open>The older files: \<^verbatim>\<open>if (count < GROWTH_LIGHT_PERIODS) count++; else count = 0;\<close>\<close>

definition getGrowthLightPeriod_old :: "config \<Rightarrow> time_t \<Rightarrow> state \<Rightarrow> (error + state) option" where
  "getGrowthLightPeriod_old cfg timeNow st =
     growthResult timeNow st (growthWalk (GROWTH_LIGHT_PERIODS cfg) cfg timeNow)"

section \<open>Bloom light\<close>

text \<open>
  One pass through the body of the \<^verbatim>\<open>while\<close> loop of \<^verbatim>\<open>getBloomLightStatus\<close>, on the local
  \<^verbatim>\<open>sumOfBloomLightPeriods\<close> and the globals \<^verbatim>\<open>bloomLightStatus\<close> and \<^verbatim>\<open>bloomDayCounter\<close>.
  \<^verbatim>\<open>bloomLightStatus\<close> is the index of the running period: \<^verbatim>\<open>false\<close> while the light period
  (index 0) runs, \<^verbatim>\<open>true\<close> while the dark period (index 1) runs.
\<close>

definition bloomBody :: "config \<Rightarrow> time_t \<Rightarrow> ulong \<times> bool \<times> byte \<Rightarrow> ulong \<times> bool \<times> byte" where
  "bloomBody cfg timeNow s =
     (case s of (sumOfBloomLightPeriods, status, counter) \<Rightarrow>
        (let sum1 = sumOfBloomLightPeriods + scast (bloomLightSchemeAt cfg status) * SECS_PER_MIN in
         if sum1 \<le> timeNow then
           (if \<not> status then
              (if startOfDaytimeReduction cfg \<le> counter
               then sum1 - ucast (reductionOfDaytimeInMinutes cfg) * SECS_PER_MIN else sum1,
               True, counter)
            else
              (if startOfDaytimeReduction cfg \<le> counter
               then sum1 + ucast (prolongNighttimeInMinutes cfg) * SECS_PER_MIN else sum1,
               False, counter + 1))
         else (sum1, status, counter)))"

partial_function (option) bloomLoop ::
  "config \<Rightarrow> time_t \<Rightarrow> ulong \<times> bool \<times> byte \<Rightarrow> (ulong \<times> bool \<times> byte) option"
where
  "bloomLoop cfg timeNow s =
     (if fst s \<le> timeNow then bloomLoop cfg timeNow (bloomBody cfg timeNow s) else Some s)"

declare bloomLoop.simps [code]

text \<open>
  The walk starts at \<^verbatim>\<open>storedSettings.bloomStart\<close> with the globals as the previous call
  left them: the function does not reset \<^verbatim>\<open>bloomLightStatus\<close> or \<^verbatim>\<open>bloomDayCounter\<close>.
\<close>

definition getBloomLightStatus :: "config \<Rightarrow> time_t \<Rightarrow> state \<Rightarrow> state option" where
  "getBloomLightStatus cfg timeNow st =
     (case bloomLoop cfg timeNow (bloomStart st, bloomLightStatus st, bloomDayCounter st) of
        None \<Rightarrow> None
      | Some (s, status, counter) \<Rightarrow>
          Some (st\<lparr>bloomLightStatus := status, bloomDayCounter := counter,
                   secondsToNextBloomLightSwitch := s - timeNow\<rparr>))"

section \<open>Sleep light (730 nm)\<close>

text \<open>
  \<^verbatim>\<open>getSleepLightStatus\<close> returns the status and writes \<^verbatim>\<open>secondsToNextSleepLightSwitch\<close>.
  Every operand is combined with an \<^verbatim>\<open>unsigned long\<close>, so the comparisons are unsigned
  and \<^verbatim>\<open>abs\<close> works on an unsigned difference.
\<close>

definition getSleepLightStatus :: "config \<Rightarrow> state \<Rightarrow> bool \<times> state" where
  "getSleepLightStatus cfg st =
     (let secondsSinceLastBloomLightSwitch =
            abs_macro (secondsToNextBloomLightSwitch st
                       - scast (bloomLightSchemeAt cfg (bloomLightStatus st)) * SECS_PER_MIN) in
      if scast (fst (sleepLightScheme cfg)) * SECS_PER_MIN < secondsToNextBloomLightSwitch st then
        (True, st\<lparr>secondsToNextSleepLightSwitch :=
                     secondsToNextBloomLightSwitch st + scast (snd (sleepLightScheme cfg)) * SECS_PER_MIN\<rparr>)
      else if scast (snd (sleepLightScheme cfg)) * SECS_PER_MIN < secondsSinceLastBloomLightSwitch then
        (True, st\<lparr>secondsToNextSleepLightSwitch :=
                     secondsSinceLastBloomLightSwitch + scast (snd (sleepLightScheme cfg)) * SECS_PER_MIN\<rparr>)
      else
        (False, st\<lparr>secondsToNextSleepLightSwitch :=
                      secondsToNextBloomLightSwitch st - scast (fst (sleepLightScheme cfg)) * SECS_PER_MIN\<rparr>))"

section \<open>Start-up: the bloom light section of \<^verbatim>\<open>setup\<close>\<close>

definition timerOnce :: "ulong \<Rightarrow> handler \<Rightarrow> state \<Rightarrow> state" where
  "timerOnce secs h st = st\<lparr>alarms := (secs, h) # alarms st\<rparr>"

definition turnOnBloomLight :: "config \<Rightarrow> time_t \<Rightarrow> state \<Rightarrow> state option" where
  "turnOnBloomLight cfg timeNow st =
     (case getBloomLightStatus cfg timeNow (st\<lparr>pinLight2 := RELAYON\<rparr>) of
        None \<Rightarrow> None
      | Some st1 \<Rightarrow> Some (timerOnce (secondsToNextBloomLightSwitch st1) TurnOffBloomLight st1))"

definition setupSleepLight :: "config \<Rightarrow> state \<Rightarrow> state" where
  "setupSleepLight cfg st =
     (case getSleepLightStatus cfg st of
        (True, st1) \<Rightarrow>
          timerOnce (secondsToNextSleepLightSwitch st1) TurnOffSleepLight (st1\<lparr>pinLight3 := RELAYON\<rparr>)
      | (False, st1) \<Rightarrow>
          timerOnce (secondsToNextSleepLightSwitch st1) TurnOnSleepLight st1)"

text \<open>
  Lines 215 to 240 of \<^verbatim>\<open>setup\<close>. The guard is the only test the start-up makes on the
  stored bloom start; \<^verbatim>\<open>timeNow - storedSettings.bloomStart\<close> is unsigned.
\<close>

definition setupBloom :: "config \<Rightarrow> time_t \<Rightarrow> state \<Rightarrow> state option" where
  "setupBloom cfg timeNow st =
     (if 0 < bloomStart st \<and> 0 < timeNow - bloomStart st then
        (case getBloomLightStatus cfg timeNow st of
           None \<Rightarrow> None
         | Some st1 \<Rightarrow>
             (if \<not> bloomLightStatus st1 then
                (case turnOnBloomLight cfg timeNow st1 of
                   None \<Rightarrow> None
                 | Some st2 \<Rightarrow> Some (setupSleepLight cfg st2))
              else
                Some (setupSleepLight cfg
                        (timerOnce (secondsToNextBloomLightSwitch st1) TurnOnBloomLight st1))))
      else Some st)"

section \<open>Serial command \<^verbatim>\<open>B\<close>\<close>

text \<open>
  \<^verbatim>\<open>int elapsedBloomDays = elapsedDays(elapsedBloomSeconds)\<close>: the difference of the two
  timestamps is unsigned, the division by \<^verbatim>\<open>SECS_PER_DAY\<close> is unsigned, and the quotient is
  cut to the 16 bits of an \<^verbatim>\<open>int\<close>.
\<close>

definition elapsedBloomDays :: "time_t \<Rightarrow> ulong \<Rightarrow> int16" where
  "elapsedBloomDays timeNow timeInput = ucast (elapsedDays (timeNow - timeInput))"



section \<open>Exhaust fan throttle\<close>

text \<open>
  The hysteresis at the end of \<^verbatim>\<open>loop\<close>. \<^verbatim>\<open>getTempC\<close> is called once for each test, so the
  step takes two readings. A reading is a \<^verbatim>\<open>float\<close> that is only compared with an \<^verbatim>\<open>int\<close>;
  the comparison is exact, so a reading is modelled by the real number it denotes.
  \<^verbatim>\<open>minRoomTemp + exhaustFanHysteresis\<close> is an addition of two \<^verbatim>\<open>int\<close>s.
\<close>

definition fanThrottleStep :: "config \<Rightarrow> real \<Rightarrow> real \<Rightarrow> state \<Rightarrow> state" where
  "fanThrottleStep cfg temp1 temp2 st =
     (if temp1 \<le> real_of_int (sint (minRoomTemp cfg)) \<and> \<not> fanThrottleActive st then
        st\<lparr>pinAirOutletThrottle := RELAYON, fanThrottleActive := True\<rparr>
      else if real_of_int (sint (minRoomTemp cfg + exhaustFanHysteresis cfg)) < temp2 \<and> fanThrottleActive st then
        st\<lparr>pinAirOutletThrottle := RELAYOFF, fanThrottleActive := False\<rparr>
      else st)"

section \<open>A configuration on which the bloom walk stalls\<close>

text \<open>
  The configuration of \<^verbatim>\<open>PlantTimer.ino\<close> with a light period of two minutes, a dark period
  of one minute and the day-length modification starting at bloom day 0, so that the
  three minutes of \<^verbatim>\<open>reductionOfDaytimeInMinutes\<close> take back a whole cycle.
\<close>

definition stallConfig :: config where
  "stallConfig = defaultConfig\<lparr>bloomLightScheme := (2, 1), startOfDaytimeReduction := 0\<rparr>"

section \<open>Arithmetic of the machine types\<close>

text \<open>
  A period of the light schemes is an \<^verbatim>\<open>int\<close> number of minutes. When it is positive, its
  conversion to \<^verbatim>\<open>unsigned long\<close> and the multiplication by \<open>SECS_PER_MIN\<close> are exact.
\<close>

lemma sint_pos_uint:
  fixes p :: int16
  assumes "0 < sint p"
  shows "sint p = uint p" and "uint p < 32768"
proof -
  have s: "sint p = signed_take_bit 15 (uint p)"
    by (simp add: sint_uint)
  have small: "uint p < 2 ^ 15"
  proof (rule ccontr)
    assume "\<not> uint p < 2 ^ 15"
    then have "signed_take_bit 15 (uint p) \<le> uint p - 2 ^ Suc 15"
      by (intro signed_take_bit_int_less_eq) simp
    moreover have "uint p < 2 ^ 16"
      using uint_lt2p [of p] by simp
    ultimately show False
      using assms s by simp
  qed
  then show "uint p < 32768"
    by simp
  have "- (2 ^ 15) \<le> (0::int)"
    by simp
  also have "0 \<le> uint p"
    by simp
  finally have "signed_take_bit 15 (uint p) = uint p"
    using small by (rule signed_take_bit_int_eq_self)
  then show "sint p = uint p"
    using s by simp
qed

lemma unat_ucast16:
  fixes p :: int16
  shows "unat (ucast p :: ulong) = unat p"
proof -
  have "unat p < 2 ^ 32"
    using unsigned_less [of p, where ?'a = nat] by simp
  then show ?thesis
    by (simp add: unsigned_ucast_eq take_bit_nat_eq_self)
qed

lemma unat_ucast8:
  fixes b :: byte
  shows "unat (ucast b :: ulong) = unat b"
proof -
  have "unat b < 2 ^ 32"
    using unsigned_less [of b, where ?'a = nat] by simp
  then show ?thesis
    by (simp add: unsigned_ucast_eq take_bit_nat_eq_self)
qed

lemma period_secs:
  fixes p :: int16
  assumes "0 <s p"
  shows "unat (scast p * SECS_PER_MIN :: ulong) = 60 * unat p" and "0 < unat p" and "unat p < 32768"
proof -
  have pos: "0 < sint p"
    using assms by (simp add: word_sless_alt)
  have su: "sint p = uint p" and lt: "uint p < 32768"
    using sint_pos_uint [OF pos] by simp_all
  have iu: "int (unat p) = uint p"
    by simp
  show b: "unat p < 32768"
    using lt iu by linarith
  show "0 < unat p"
    using pos su iu by linarith
  have "(scast p :: ulong) = ucast p"
    by (simp only: scast_eq ucast_eq su)
  then have u: "unat (scast p :: ulong) = unat p"
    by (simp add: unat_ucast16)
  have "unat (scast p * 60 :: ulong) = unat (scast p :: ulong) * 60"
    using unat_mult_lem [of "scast p :: ulong" 60] b u by simp
  then show "unat (scast p * SECS_PER_MIN :: ulong) = 60 * unat p"
    using u by (simp add: SECS_PER_MIN_def)
qed

lemma byte_secs:
  fixes b :: byte
  shows "unat (ucast b * SECS_PER_MIN :: ulong) = 60 * unat b" and "unat b < 256"
proof -
  show b: "unat b < 256"
    using unsigned_less [of b, where ?'a = nat] by simp
  have u: "unat (ucast b :: ulong) = unat b"
    by (rule unat_ucast8)
  have "unat (ucast b * 60 :: ulong) = unat (ucast b :: ulong) * 60"
    using unat_mult_lem [of "ucast b :: ulong" 60] b u by simp
  then show "unat (ucast b * SECS_PER_MIN :: ulong) = 60 * unat b"
    using u by (simp add: SECS_PER_MIN_def)
qed

lemma unat_add32:
  fixes a b :: ulong
  assumes "unat a + unat b < 4294967296"
  shows "unat (a + b) = unat a + unat b"
  using assms unat_add_lem [of a b] by simp

lemma unat_sub32:
  fixes a b :: ulong
  assumes "unat b \<le> unat a"
  shows "unat (a - b) = unat a - unat b"
  using assms by (simp add: unat_sub word_le_nat_alt)

section \<open>The bloom walk, pass by pass\<close>

text \<open>
  One pass of the loop in terms of the unsigned values, for a dark period and for a light
  period, as long as the additions stay below \<open>2 ^ 32\<close> and the subtraction of the
  day-length reduction stays above 0.
\<close>

lemma bloomBody_dark:
  fixes cfg :: config and t s :: ulong and c :: byte
  defines "off \<equiv> unat (snd (bloomLightScheme cfg))"
    and "offS \<equiv> scast (snd (bloomLightScheme cfg)) * SECS_PER_MIN :: ulong"
    and "pro \<equiv> (if startOfDaytimeReduction cfg \<le> c then unat (prolongNighttimeInMinutes cfg) else 0)"
    and "proS \<equiv> (if startOfDaytimeReduction cfg \<le> c
                   then ucast (prolongNighttimeInMinutes cfg) * SECS_PER_MIN else 0 :: ulong)"
  assumes pos: "0 <s snd (bloomLightScheme cfg)"
    and upper: "unat s + 60 * off + 60 * pro < 4294967296"
  shows "bloomBody cfg t (s, True, c) =
           (if unat s + 60 * off \<le> unat t then (s + offS + proS, False, c + 1) else (s + offS, True, c))"
    and "unat (s + offS) = unat s + 60 * off"
    and "unat (s + offS + proS) = unat s + 60 * off + 60 * pro"
proof -
  have offS: "unat offS = 60 * off"
    unfolding offS_def off_def by (rule period_secs(1) [OF pos])
  have proS: "unat proS = 60 * pro"
    unfolding proS_def pro_def by (simp add: byte_secs(1))
  show a: "unat (s + offS) = unat s + 60 * off"
    using upper offS by (intro unat_add32 [THEN trans]) simp_all
  show "unat (s + offS + proS) = unat s + 60 * off + 60 * pro"
    using upper a proS by (intro unat_add32 [THEN trans]) simp_all
  show "bloomBody cfg t (s, True, c) =
           (if unat s + 60 * off \<le> unat t then (s + offS + proS, False, c + 1) else (s + offS, True, c))"
    using a
    by (simp add: bloomBody_def Let_def bloomLightSchemeAt_def word_le_nat_alt [of _ t]
        offS_def [symmetric] proS_def)
qed

lemma bloomBody_light:
  fixes cfg :: config and t s :: ulong and c :: byte
  defines "on \<equiv> unat (fst (bloomLightScheme cfg))"
    and "onS \<equiv> scast (fst (bloomLightScheme cfg)) * SECS_PER_MIN :: ulong"
    and "redS \<equiv> (if startOfDaytimeReduction cfg \<le> c
                   then ucast (reductionOfDaytimeInMinutes cfg) * SECS_PER_MIN else 0 :: ulong)"
  assumes pos: "0 <s fst (bloomLightScheme cfg)"
    and upper: "unat s + 60 * on < 4294967296"
  shows "bloomBody cfg t (s, False, c) =
           (if unat s + 60 * on \<le> unat t then (s + onS - redS, True, c) else (s + onS, False, c))"
    and "unat (s + onS) = unat s + 60 * on"
proof -
  have onS: "unat onS = 60 * on"
    unfolding onS_def on_def by (rule period_secs(1) [OF pos])
  show a: "unat (s + onS) = unat s + 60 * on"
    using upper onS by (intro unat_add32 [THEN trans]) simp_all
  show "bloomBody cfg t (s, False, c) =
           (if unat s + 60 * on \<le> unat t then (s + onS - redS, True, c) else (s + onS, False, c))"
    using a
    by (simp add: bloomBody_def Let_def bloomLightSchemeAt_def word_le_nat_alt [of _ t]
        onS_def [symmetric] redS_def)
qed

lemma bloomBody_light_drift:
  fixes cfg :: config and s :: ulong and c :: byte
  defines "on \<equiv> unat (fst (bloomLightScheme cfg))"
    and "onS \<equiv> scast (fst (bloomLightScheme cfg)) * SECS_PER_MIN :: ulong"
    and "red \<equiv> (if startOfDaytimeReduction cfg \<le> c then unat (reductionOfDaytimeInMinutes cfg) else 0)"
    and "redS \<equiv> (if startOfDaytimeReduction cfg \<le> c
                   then ucast (reductionOfDaytimeInMinutes cfg) * SECS_PER_MIN else 0 :: ulong)"
  assumes pos: "0 <s fst (bloomLightScheme cfg)"
    and upper: "unat s + 60 * on < 4294967296"
    and lower: "60 * red \<le> unat s + 60 * on"
  shows "unat (s + onS - redS) = unat s + 60 * on - 60 * red"
proof -
  have redS: "unat redS = 60 * red"
    unfolding redS_def red_def by (simp add: byte_secs(1))
  have a: "unat (s + onS) = unat s + 60 * on"
    unfolding onS_def on_def by (rule bloomBody_light(2) [OF pos upper [unfolded on_def]])
  show ?thesis
    using lower a redS by (intro unat_sub32 [THEN trans]) simp_all
qed

text \<open>The loop test, unfolded once.\<close>

lemma bloomLoop_stop: "unat t < unat s \<Longrightarrow> bloomLoop cfg t (s, status, c) = Some (s, status, c)"
  by (subst bloomLoop.simps) (simp add: word_le_nat_alt)

lemma bloomLoop_go:
  "unat s \<le> unat t \<Longrightarrow> bloomLoop cfg t (s, status, c) = bloomLoop cfg t (bloomBody cfg t (s, status, c))"
  by (subst bloomLoop.simps) (simp add: word_le_nat_alt)

text \<open>
  Termination measure of the walk: twice the distance of the sum to \<open>timeNow\<close>, shifted
  by the part of the day-length reduction that exceeds the light period, so that a
  light pass, which may move the sum backwards, still decreases it.
\<close>

lemma measure_dark:
  fixes a b K x y z :: nat
  assumes "a \<le> b" and "K + 60 \<le> y" and "x = a + y + z"
  shows "2 * (b + K) + 2 - 2 * x < 2 * (b + K) + 2 - (2 * (a + K) + 1)"
proof -
  have "2 * (a + K) + 1 < 2 * x"
    using assms by simp
  moreover have "2 * (a + K) + 1 < 2 * (b + K) + 2"
    using assms by simp
  ultimately show ?thesis
    by (rule diff_less_mono2)
qed

lemma measure_light:
  fixes a b K x :: nat
  assumes "a \<le> b" and "a \<le> x + K"
  shows "2 * (b + K) + 2 - (2 * (x + K) + 1) < 2 * (b + K) + 2 - 2 * a"
proof -
  have "2 * a < 2 * (x + K) + 1"
    using assms by simp
  moreover have "2 * a < 2 * (b + K) + 2"
    using assms by simp
  ultimately show ?thesis
    by (rule diff_less_mono2)
qed

lemma net_gap:
  fixes red on off :: nat
  assumes "red < on + off" and "0 < off"
  shows "60 * (red - on) + 60 \<le> 60 * off"
proof -
  have "Suc (red - on) \<le> off"
    using assms by linarith
  then have "60 * Suc (red - on) \<le> 60 * off"
    by (rule mult_le_mono2)
  then show ?thesis
    by simp
qed

lemma inv_light:
  fixes a on r red :: nat
  assumes "r \<le> red"
  shows "a \<le> a + 60 * on - 60 * r + 60 * (red - on)"
proof (cases "r \<le> on")
  case True
  then have "60 * r \<le> 60 * on" by simp
  then show ?thesis by simp
next
  case False
  then have "on \<le> r" by simp
  then have "60 * on \<le> 60 * r" by simp
  have "r - on \<le> red - on"
    using assms by simp
  then have "60 * (r - on) \<le> 60 * (red - on)"
    by (rule mult_le_mono2)
  moreover have "a + 60 * on - 60 * r + 60 * (r - on) \<ge> a"
    using \<open>on \<le> r\<close> by (simp add: diff_mult_distrib2)
  ultimately show ?thesis
    by linarith
qed

lemma unat_sub_wrap32:
  fixes a b :: ulong
  assumes "unat a < unat b"
  shows "unat (a - b) = unat a + 4294967296 - unat b"
  using assms unat_sub_if_size [of a b] by (simp add: word_size)

lemma bloomLoop_returns:
  fixes cfg :: config and t :: ulong
  defines "on \<equiv> unat (fst (bloomLightScheme cfg))"
    and "off \<equiv> unat (snd (bloomLightScheme cfg))"
    and "red \<equiv> unat (reductionOfDaytimeInMinutes cfg)"
    and "pro \<equiv> unat (prolongNighttimeInMinutes cfg)"
  assumes pos_on: "0 <s fst (bloomLightScheme cfg)"
    and pos_off: "0 <s snd (bloomLightScheme cfg)"
    and net: "red < on + off"
    and upper: "unat t + 60 * (on + off + pro) < 4294967296"
  shows "\<exists>r. bloomLoop cfg t (s, status, c) = Some r"
proof (induction "2 * (unat t + 60 * (red - on)) + 2
                   - (if status then 2 * (unat s + 60 * (red - on)) + 1 else 2 * unat s)"
       arbitrary: s status c rule: less_induct)
  case less
  show ?case
  proof (cases "unat s \<le> unat t")
    case False
    then have "bloomLoop cfg t (s, status, c) = Some (s, status, c)"
      by (simp add: bloomLoop_stop)
    then show ?thesis
      by (rule exI)
  next
    case in_loop: True
    note go = bloomLoop_go [OF in_loop, of cfg status c]
    show ?thesis
    proof (cases status)
      case dark: True
      let ?pro = "if startOfDaytimeReduction cfg \<le> c then unat (prolongNighttimeInMinutes cfg) else 0"
      let ?s1 = "s + scast (snd (bloomLightScheme cfg)) * SECS_PER_MIN"
      let ?s2 = "?s1 + (if startOfDaytimeReduction cfg \<le> c
                   then ucast (prolongNighttimeInMinutes cfg) * SECS_PER_MIN else 0)"
      have up: "unat s + 60 * unat (snd (bloomLightScheme cfg)) + 60 * ?pro < 4294967296"
        using in_loop upper by (simp add: on_def off_def pro_def)
      note body = bloomBody_dark [OF pos_off up]
      show ?thesis
      proof (cases "unat s + 60 * off \<le> unat t")
        case False
        then have "bloomLoop cfg t (s, status, c) = bloomLoop cfg t (?s1, True, c)"
          using go body(1) dark by (simp add: off_def)
        moreover have "unat t < unat ?s1"
          using False body(2) by (simp add: off_def)
        ultimately have "bloomLoop cfg t (s, status, c) = Some (?s1, True, c)"
          by (simp add: bloomLoop_stop)
        then show ?thesis
          by (rule exI)
      next
        case True
        then have eq: "bloomLoop cfg t (s, status, c) = bloomLoop cfg t (?s2, False, c + 1)"
          using go body(1) dark by (simp add: off_def)
        have s2: "unat ?s2 = unat s + 60 * off + 60 * ?pro"
          using body(3) by (simp add: off_def)
        have "0 < off"
          unfolding off_def by (rule period_secs(2) [OF pos_off])
        with net have k: "60 * (red - on) + 60 \<le> 60 * off"
          by (rule net_gap)
        have m: "2 * (unat t + 60 * (red - on)) + 2 - 2 * unat ?s2
                 < 2 * (unat t + 60 * (red - on)) + 2 - (2 * (unat s + 60 * (red - on)) + 1)"
          by (rule measure_dark [OF in_loop k s2])
        have "\<exists>r. bloomLoop cfg t (?s2, False, c + 1) = Some r"
        proof (rule less.hyps)
          show "2 * (unat t + 60 * (red - on)) + 2 - (if False then 2 * (unat ?s2 + 60 * (red - on)) + 1 else 2 * unat ?s2)
                < 2 * (unat t + 60 * (red - on)) + 2 - (if status then 2 * (unat s + 60 * (red - on)) + 1 else 2 * unat s)"
            using dark m by simp
        qed
        then show ?thesis
          unfolding eq .
      qed
    next
      case light: False
      let ?red = "if startOfDaytimeReduction cfg \<le> c then unat (reductionOfDaytimeInMinutes cfg) else 0"
      let ?s1 = "s + scast (fst (bloomLightScheme cfg)) * SECS_PER_MIN"
      let ?redS = "if startOfDaytimeReduction cfg \<le> c
                   then ucast (reductionOfDaytimeInMinutes cfg) * SECS_PER_MIN else (0 :: ulong)"
      let ?s2 = "?s1 - ?redS"
      have up: "unat s + 60 * unat (fst (bloomLightScheme cfg)) < 4294967296"
        using in_loop upper by (simp add: on_def off_def pro_def)
      note body = bloomBody_light [OF pos_on up]
      have s1: "unat ?s1 = unat s + 60 * on"
        using body(2) by (simp add: on_def)
      show ?thesis
      proof (cases "unat s + 60 * on \<le> unat t")
        case False
        then have "bloomLoop cfg t (s, status, c) = bloomLoop cfg t (?s1, False, c)"
          using go body(1) light by (simp add: on_def)
        moreover have "unat t < unat ?s1"
          using False s1 by simp
        ultimately have "bloomLoop cfg t (s, status, c) = Some (?s1, False, c)"
          by (simp add: bloomLoop_stop)
        then show ?thesis
          by (rule exI)
      next
        case True
        then have eq: "bloomLoop cfg t (s, status, c) = bloomLoop cfg t (?s2, True, c)"
          using go body(1) light by (simp add: on_def)
        show ?thesis
        proof (cases "60 * ?red \<le> unat s + 60 * on")
          case no_wrap: True
          then have lo: "60 * ?red \<le> unat s + 60 * unat (fst (bloomLightScheme cfg))"
            by (simp add: on_def)
          have s2: "unat ?s2 = unat s + 60 * on - 60 * ?red"
            using bloomBody_light_drift [OF pos_on up lo] by (simp add: on_def)
          have "?red \<le> red"
            by (simp add: red_def)
          then have "unat s \<le> unat s + 60 * on - 60 * ?red + 60 * (red - on)"
            by (rule inv_light)
          then have inv1: "unat s \<le> unat ?s2 + 60 * (red - on)"
            unfolding s2 .
          have m: "2 * (unat t + 60 * (red - on)) + 2 - (2 * (unat ?s2 + 60 * (red - on)) + 1)
                   < 2 * (unat t + 60 * (red - on)) + 2 - 2 * unat s"
            by (rule measure_light [OF in_loop inv1])
          have "\<exists>r. bloomLoop cfg t (?s2, True, c) = Some r"
          proof (rule less.hyps)
            show "2 * (unat t + 60 * (red - on)) + 2 - (if True then 2 * (unat ?s2 + 60 * (red - on)) + 1 else 2 * unat ?s2)
                  < 2 * (unat t + 60 * (red - on)) + 2 - (if status then 2 * (unat s + 60 * (red - on)) + 1 else 2 * unat s)"
              using light m by simp
          qed
          then show ?thesis
            unfolding eq .
        next
          case wrap: False
          have redS: "unat ?redS = 60 * ?red"
            by (simp add: byte_secs(1))
          have lt: "unat ?s1 < unat ?redS"
            using wrap s1 redS by simp
          have "unat ?s2 = unat ?s1 + 4294967296 - unat ?redS"
            using lt by (rule unat_sub_wrap32)
          then have s2: "unat ?s2 = unat s + 60 * on + 4294967296 - 60 * ?red"
            using s1 redS by simp
          have "?red \<le> red"
            by (simp add: red_def)
          then have "60 * ?red < 60 * (on + off)"
            using net by simp
          then have "unat t + 60 * ?red < 4294967296"
            using upper by simp
          then have "unat t < unat ?s2"
            unfolding s2 by simp
          then have "bloomLoop cfg t (?s2, True, c) = Some (?s2, True, c)"
            by (rule bloomLoop_stop)
          then have "bloomLoop cfg t (s, status, c) = Some (?s2, True, c)"
            using eq by simp
          then show ?thesis
            by (rule exI)
        qed
      qed
    qed
  qed
qed

text \<open>On \<open>stallConfig\<close> the walk alternates between two sums and never passes \<open>timeNow\<close>.\<close>

lemma stall_cycle:
  assumes "bloomLoop cfg t s = Some y"
  shows "\<not> (cfg = stallConfig \<and> t = MIN_TIME + 120
      \<and> ((fst s = MIN_TIME \<and> \<not> fst (snd s)) \<or> (fst s = MIN_TIME - 60 \<and> fst (snd s))))"
proof (rule bloomLoop.raw_induct [where P = "\<lambda>cfg t s y. \<not> (cfg = stallConfig \<and> t = MIN_TIME + 120
      \<and> ((fst s = MIN_TIME \<and> \<not> fst (snd s)) \<or> (fst s = MIN_TIME - 60 \<and> fst (snd s))))", OF _ assms])
  fix loop :: "config \<Rightarrow> time_t \<Rightarrow> ulong \<times> bool \<times> byte \<Rightarrow> (ulong \<times> bool \<times> byte) option"
  fix cfg t s y
  assume IH: "\<And>cfg t s y. loop cfg t s = Some y \<Longrightarrow>
      \<not> (cfg = stallConfig \<and> t = MIN_TIME + 120
      \<and> ((fst s = MIN_TIME \<and> \<not> fst (snd s)) \<or> (fst s = MIN_TIME - 60 \<and> fst (snd s))))"
    and eq: "(if fst s \<le> t then loop cfg t (bloomBody cfg t s) else Some s) = Some y"
  show "\<not> (cfg = stallConfig \<and> t = MIN_TIME + 120
      \<and> ((fst s = MIN_TIME \<and> \<not> fst (snd s)) \<or> (fst s = MIN_TIME - 60 \<and> fst (snd s))))"
  proof
    assume a: "cfg = stallConfig \<and> t = MIN_TIME + 120
      \<and> ((fst s = MIN_TIME \<and> \<not> fst (snd s)) \<or> (fst s = MIN_TIME - 60 \<and> fst (snd s)))"
    obtain a st c where s: "s = (a, st, c)"
      by (cases s) auto
    have in_loop: "fst s \<le> t"
      using a by (auto simp: MIN_TIME_def)
    then have next_call: "loop cfg t (bloomBody cfg t s) = Some y"
      using eq by simp
    have "(fst (bloomBody cfg t s) = MIN_TIME \<and> \<not> fst (snd (bloomBody cfg t s)))
          \<or> (fst (bloomBody cfg t s) = MIN_TIME - 60 \<and> fst (snd (bloomBody cfg t s)))"
      using a s
      by (auto simp: bloomBody_def Let_def stallConfig_def defaultConfig_def bloomLightSchemeAt_def
          SECS_PER_MIN_def MIN_TIME_def)
    then show False
      using IH [OF next_call] a by blast
  qed
qed

text \<open>
  A walk over whole cycles without day-length modification: from cycle \<open>k\<close> it reaches
  cycle \<open>N\<close>, where it stops inside the next light period.
\<close>

lemma unat_plus_of_nat:
  fixes S :: ulong
  assumes "unat S + x < 4294967296"
  shows "unat (S + of_nat x) = unat S + x"
proof -
  have "unat (of_nat x :: ulong) = x"
    using assms by (simp add: unat_of_nat)
  then show ?thesis
    using assms by (intro unat_add32 [THEN trans]) simp_all
qed

lemma unat_byte_succ:
  fixes c :: byte
  assumes "unat c < 255"
  shows "unat (c + 1) = unat c + 1"
  using assms unat_add_lem [of c 1] by simp

lemma bloomLoop_cycles:
  fixes cfg :: config and S :: ulong and N :: nat
  defines "on \<equiv> unat (fst (bloomLightScheme cfg))"
    and "off \<equiv> unat (snd (bloomLightScheme cfg))"
  assumes pos_on: "0 <s fst (bloomLightScheme cfg)"
    and pos_off: "0 <s snd (bloomLightScheme cfg)"
    and reach: "N \<le> unat (startOfDaytimeReduction cfg)"
    and bound: "unat S + N * (60 * on + 60 * off) + 60 * on < 4294967296"
    and t: "unat t = unat S + N * (60 * on + 60 * off)"
  shows "k \<le> N \<Longrightarrow> unat s = unat S + k * (60 * on + 60 * off) \<Longrightarrow> unat c = k \<Longrightarrow>
         \<exists>s' c'. bloomLoop cfg t (s, False, c) = Some (s', False, c')
                 \<and> unat s' = unat t + 60 * on \<and> unat c' = N"
proof (induction k arbitrary: s c rule: inc_induct)
  case base
  let ?s1 = "s + scast (fst (bloomLightScheme cfg)) * SECS_PER_MIN"
  have st: "unat s = unat t"
    using base t by simp
  have up: "unat s + 60 * unat (fst (bloomLightScheme cfg)) < 4294967296"
    using bound base by (simp add: on_def)
  note body = bloomBody_light [OF pos_on up]
  have "0 < on"
    unfolding on_def by (rule period_secs(2) [OF pos_on])
  then have out: "\<not> unat s + 60 * on \<le> unat t"
    using st by simp
  have s1: "unat ?s1 = unat t + 60 * on"
    using body(2) st by (simp add: on_def)
  have "bloomLoop cfg t (s, False, c) = bloomLoop cfg t (?s1, False, c)"
    using bloomLoop_go [of s t cfg False c] st body(1) out by (simp add: on_def)
  also have "\<dots> = Some (?s1, False, c)"
    using s1 \<open>0 < on\<close> by (intro bloomLoop_stop) simp
  finally show ?case
    using s1 base by blast
next
  case (step n)
  let ?s1 = "s + scast (fst (bloomLightScheme cfg)) * SECS_PER_MIN"
  let ?s2 = "?s1 + scast (snd (bloomLightScheme cfg)) * SECS_PER_MIN"
  define a where "a = n * (60 * on + 60 * off)"
  define b where "b = N * (60 * on + 60 * off)"
  have "Suc n * (60 * on + 60 * off) \<le> N * (60 * on + 60 * off)"
    using step.hyps(2) by (intro mult_le_mono1) simp
  then have ab: "a + (60 * on + 60 * off) \<le> b"
    by (simp add: a_def b_def)
  have sa: "unat s = unat S + a"
    using step.prems(1) by (simp add: a_def)
  have tb: "unat t = unat S + b"
    using t by (simp add: b_def)
  have bd: "unat S + b + 60 * on < 4294967296"
    using bound by (simp add: b_def)
  have no_drift: "\<not> startOfDaytimeReduction cfg \<le> c"
    using step.hyps(2) step.prems(2) reach by (simp add: word_le_nat_alt)
  have s_le: "unat s \<le> unat t"
    using sa tb ab by linarith
  have "unat s + 60 * on < 4294967296"
    using sa ab bd by linarith
  then have up1: "unat s + 60 * unat (fst (bloomLightScheme cfg)) < 4294967296"
    by (simp add: on_def)
  note light = bloomBody_light [OF pos_on up1]
  have s1: "unat ?s1 = unat s + 60 * on"
    using light(2) by (simp add: on_def)
  have in1: "unat s + 60 * on \<le> unat t"
    using sa tb ab by linarith
  have step1: "bloomLoop cfg t (s, False, c) = bloomLoop cfg t (?s1, True, c)"
    using bloomLoop_go [OF s_le, of cfg False c] light(1) in1 no_drift by (simp add: on_def)
  have s1_le: "unat ?s1 \<le> unat t"
    using s1 in1 by simp
  have "unat ?s1 + 60 * off + 60 * 0 < 4294967296"
    using s1 sa ab bd by linarith
  then have up2: "unat ?s1 + 60 * unat (snd (bloomLightScheme cfg))
               + 60 * (if startOfDaytimeReduction cfg \<le> c then unat (prolongNighttimeInMinutes cfg) else 0)
             < 4294967296"
    using no_drift by (simp add: off_def)
  note dark = bloomBody_dark [OF pos_off up2]
  have "unat ?s2 = unat ?s1 + 60 * off"
    using dark(2) by (simp add: off_def)
  then have "unat ?s2 = unat S + (a + (60 * on + 60 * off))"
    using s1 sa by linarith
  then have s2: "unat ?s2 = unat S + Suc n * (60 * on + 60 * off)"
    by (simp add: a_def)
  have in2: "unat ?s1 + 60 * off \<le> unat t"
    using s1 sa tb ab by linarith
  have step2: "bloomLoop cfg t (?s1, True, c) = bloomLoop cfg t (?s2, False, c + 1)"
    using bloomLoop_go [OF s1_le, of cfg True c] dark(1) in2 no_drift by (simp add: off_def)
  have "unat c < 255"
  proof -
    have "unat (startOfDaytimeReduction cfg) < 256"
      by (rule byte_secs(2))
    then show ?thesis
      using step.hyps(2) step.prems(2) reach by simp
  qed
  then have c1: "unat (c + 1) = Suc n"
    using step.prems(2) by (simp add: unat_byte_succ)
  show ?case
    using step.IH [OF s2 c1] step1 step2 by simp
qed

section \<open>The growth walk, pass by pass\<close>

text \<open>
  One pass of the loop of \<^verbatim>\<open>getGrowthLightPeriod\<close> in terms of the unsigned values, the
  start of the walk (the start time of the previous day), and the walks of the
  configuration of \<^verbatim>\<open>PlantTimer.ino\<close> that the scenario needs.
\<close>

lemma growthLoop_exit:
  "unat t < unat s \<Longrightarrow> growthLoop b cfg t s c = Some (Inr (s, c))"
  by (subst growthLoop.simps) (simp add: word_le_nat_alt)

lemma growthLoop_step:
  fixes cfg :: config and t s :: ulong and c :: byte
  defines "p \<equiv> unat (growthLightScheme cfg ! unat c)"
    and "s1 \<equiv> s + scast (growthLightScheme cfg ! unat c) * SECS_PER_MIN"
  assumes in_loop: "unat s \<le> unat t"
    and idx: "unat c < length (growthLightScheme cfg)"
    and pos: "0 <s growthLightScheme cfg ! unat c"
    and upper: "unat s + 60 * p < 4294967296"
  shows "growthLoop b cfg t s c =
           growthLoop b cfg t s1 (if unat s + 60 * p \<le> unat t then (if unat c < b then c + 1 else 0) else c)"
    and "unat s1 = unat s + 60 * p"
proof -
  have "unat (scast (growthLightScheme cfg ! unat c) * SECS_PER_MIN :: ulong) = 60 * p"
    unfolding p_def by (rule period_secs(1) [OF pos])
  then show a: "unat s1 = unat s + 60 * p"
    unfolding s1_def using upper by (intro unat_add32 [THEN trans]) simp_all
  show "growthLoop b cfg t s c =
           growthLoop b cfg t s1 (if unat s + 60 * p \<le> unat t then (if unat c < b then c + 1 else 0) else c)"
    using in_loop idx a
    by (subst growthLoop.simps) (simp add: word_le_nat_alt s1_def [symmetric])
qed

lemma unat_div_day:
  fixes t :: ulong
  shows "unat ((t div SECS_PER_DAY) * SECS_PER_DAY) = (unat t div 86400) * 86400"
proof -
  have d: "unat (t div SECS_PER_DAY) = unat t div 86400"
    by (simp add: SECS_PER_DAY_def SECS_PER_HOUR_def unat_div)
  have "unat t < 4294967296"
    using unsigned_less [of t, where ?'a = nat] by simp
  then have "(unat t div 86400) * 86400 < 4294967296"
    by (intro le_less_trans [OF _ \<open>unat t < 4294967296\<close>]) simp
  then have "unat ((t div SECS_PER_DAY) * 86400) = unat (t div SECS_PER_DAY) * 86400"
    using unat_mult_lem [of "t div SECS_PER_DAY" 86400] d by simp
  then show ?thesis
    using d by (simp add: SECS_PER_DAY_def SECS_PER_HOUR_def)
qed

lemma growth_start_default:
  fixes t :: ulong
  assumes "86400 \<le> unat t" and "(unat t div 86400) * 86400 + 58800 < 4294967296"
  shows "unat (makeTime_at t (growthLightStartTimeHour defaultConfig)
                 (growthLightStartTimeMinute defaultConfig) 0 - SECS_PER_DAY)
           = (unat t div 86400) * 86400 + 58800 - 86400"
proof -
  let ?m = "(t div SECS_PER_DAY) * SECS_PER_DAY"
  have m: "unat ?m = (unat t div 86400) * 86400"
    by (rule unat_div_day)
  have "makeTime_at t (growthLightStartTimeHour defaultConfig) (growthLightStartTimeMinute defaultConfig) 0
          = ?m + 58800"
    by (simp add: makeTime_at_def defaultConfig_def SECS_PER_HOUR_def SECS_PER_MIN_def)
  moreover have a: "unat (?m + 58800) = (unat t div 86400) * 86400 + 58800"
    using assms(2) m by (intro unat_add32 [THEN trans]) simp_all
  moreover have "1 \<le> unat t div 86400"
    using assms(1) by (simp add: Suc_le_eq div_greater_zero_iff)
  then have "86400 \<le> (unat t div 86400) * 86400 + 58800"
    by simp
  then have "unat (?m + 58800 - 86400) = unat (?m + 58800) - 86400"
    using a by (intro unat_sub32 [THEN trans]) simp_all
  ultimately show ?thesis
    by (simp add: SECS_PER_DAY_def SECS_PER_HOUR_def)
qed

lemma growth_step_default:
  fixes t s :: ulong and c c' :: byte and p n :: nat
  assumes in_loop: "unat s \<le> unat t"
    and idx: "unat c < 4"
    and p: "p = unat ([720, 330, 60, 330 :: int16] ! unat c)"
    and upper: "unat s + 60 * p < 4294967296"
    and n: "n = unat s + 60 * p"
    and c': "c' = (if n \<le> unat t then (if unat c < 3 then c + 1 else 0) else c)"
  shows "\<exists>x. unat x = n
           \<and> growthLoop 3 defaultConfig t s c = growthLoop 3 defaultConfig t x c'"
proof -
  have g: "growthLightScheme defaultConfig = [720, 330, 60, 330]"
    by (simp add: defaultConfig_def)
  have "unat c = 0 \<or> unat c = 1 \<or> unat c = 2 \<or> unat c = 3"
    using idx by arith
  then have pos: "0 <s growthLightScheme defaultConfig ! unat c"
    unfolding g by (auto simp: word_sless_alt)
  have idx': "unat c < length (growthLightScheme defaultConfig)"
    using idx by (simp add: g)
  have upper': "unat s + 60 * unat (growthLightScheme defaultConfig ! unat c) < 4294967296"
    using upper by (simp add: g p)
  have "unat (s + scast (growthLightScheme defaultConfig ! unat c) * SECS_PER_MIN) = n"
    using growthLoop_step(2) [OF in_loop idx' pos upper'] by (simp add: g p n)
  moreover have "growthLoop 3 defaultConfig t s c =
      growthLoop 3 defaultConfig t (s + scast (growthLightScheme defaultConfig ! unat c) * SECS_PER_MIN) c'"
    using growthLoop_step(1) [OF in_loop idx' pos upper', of 3] by (simp add: g p n c')
  ultimately show ?thesis
    by blast
qed

lemma growth_walk_first_period:
  fixes t s :: ulong
  assumes le: "unat s \<le> unat t" and t: "unat t < unat s + 43200" and bound: "unat s + 43200 < 4294967296"
  shows "\<exists>s'. growthLoop 3 defaultConfig t s 0 = Some (Inr (s', 0)) \<and> unat s' = unat s + 43200"
proof -
  have "\<exists>x. unat x = unat s + 43200
           \<and> growthLoop 3 defaultConfig t s 0 = growthLoop 3 defaultConfig t x 0"
    using le t bound by (intro growth_step_default [where p = 720]) simp_all
  then obtain s1 where s1: "unat s1 = unat s + 43200"
    and e1: "growthLoop 3 defaultConfig t s 0 = growthLoop 3 defaultConfig t s1 0"
    by blast
  have "growthLoop 3 defaultConfig t s1 0 = Some (Inr (s1, 0))"
    using s1 t by (intro growthLoop_exit) simp
  then have "growthLoop 3 defaultConfig t s 0 = Some (Inr (s1, 0))"
    using e1 by simp
  then show ?thesis
    using s1 by blast
qed

lemma growth_walk_full_day:
  fixes t s :: ulong
  assumes t: "unat t = unat s + 86400" and bound: "unat s + 129600 < 4294967296"
  shows "\<exists>s'. growthLoop 3 defaultConfig t s 0 = Some (Inr (s', 0)) \<and> unat s' = unat s + 129600"
proof -
  have "\<exists>x. unat x = unat s + 43200
           \<and> growthLoop 3 defaultConfig t s 0 = growthLoop 3 defaultConfig t x 1"
    using t bound by (intro growth_step_default [where p = 720]) simp_all
  then obtain s1 where s1: "unat s1 = unat s + 43200"
    and e1: "growthLoop 3 defaultConfig t s 0 = growthLoop 3 defaultConfig t s1 1"
    by blast
  have "\<exists>x. unat x = unat s + 63000
           \<and> growthLoop 3 defaultConfig t s1 1 = growthLoop 3 defaultConfig t x 2"
    using t bound s1 by (intro growth_step_default [where p = 330]) simp_all
  then obtain s2 where s2: "unat s2 = unat s + 63000"
    and e2: "growthLoop 3 defaultConfig t s1 1 = growthLoop 3 defaultConfig t s2 2"
    by blast
  have "\<exists>x. unat x = unat s + 66600
           \<and> growthLoop 3 defaultConfig t s2 2 = growthLoop 3 defaultConfig t x 3"
    using t bound s2 by (intro growth_step_default [where p = 60]) simp_all
  then obtain s3 where s3: "unat s3 = unat s + 66600"
    and e3: "growthLoop 3 defaultConfig t s2 2 = growthLoop 3 defaultConfig t s3 3"
    by blast
  have "\<exists>x. unat x = unat s + 86400
           \<and> growthLoop 3 defaultConfig t s3 3 = growthLoop 3 defaultConfig t x 0"
    using t bound s3 by (intro growth_step_default [where p = 330]) simp_all
  then obtain s4 where s4: "unat s4 = unat s + 86400"
    and e4: "growthLoop 3 defaultConfig t s3 3 = growthLoop 3 defaultConfig t s4 0"
    by blast
  have "\<exists>x. unat x = unat s + 129600
           \<and> growthLoop 3 defaultConfig t s4 0 = growthLoop 3 defaultConfig t x 0"
    using t bound s4 by (intro growth_step_default [where p = 720]) simp_all
  then obtain s5 where s5: "unat s5 = unat s + 129600"
    and e5: "growthLoop 3 defaultConfig t s4 0 = growthLoop 3 defaultConfig t s5 0"
    by blast
  have "growthLoop 3 defaultConfig t s5 0 = Some (Inr (s5, 0))"
    using s5 t by (intro growthLoop_exit) simp
  then have "growthLoop 3 defaultConfig t s 0 = Some (Inr (s5, 0))"
    using e1 e2 e3 e4 e5 by simp
  then show ?thesis
    using s5 by blast
qed

lemma growth_walk_second_period:
  fixes t s :: ulong
  assumes t: "unat t = unat s + 43200" and bound: "unat s + 63000 < 4294967296"
  shows "\<exists>s'. growthLoop 3 defaultConfig t s 0 = Some (Inr (s', 1)) \<and> unat s' = unat s + 63000"
proof -
  have "\<exists>x. unat x = unat s + 43200
           \<and> growthLoop 3 defaultConfig t s 0 = growthLoop 3 defaultConfig t x 1"
    using t bound by (intro growth_step_default [where p = 720]) simp_all
  then obtain s1 where s1: "unat s1 = unat s + 43200"
    and e1: "growthLoop 3 defaultConfig t s 0 = growthLoop 3 defaultConfig t s1 1"
    by blast
  have "\<exists>x. unat x = unat s + 63000
           \<and> growthLoop 3 defaultConfig t s1 1 = growthLoop 3 defaultConfig t x 1"
    using t bound s1 by (intro growth_step_default [where p = 330]) simp_all
  then obtain s2 where s2: "unat s2 = unat s + 63000"
    and e2: "growthLoop 3 defaultConfig t s1 1 = growthLoop 3 defaultConfig t s2 1"
    by blast
  have "growthLoop 3 defaultConfig t s2 1 = Some (Inr (s2, 1))"
    using s2 t by (intro growthLoop_exit) simp
  then have "growthLoop 3 defaultConfig t s 0 = Some (Inr (s2, 1))"
    using e1 e2 by simp
  then show ?thesis
    using s2 by blast
qed

lemma word_diff_from_unat:
  fixes s t :: ulong
  assumes "unat s = unat t + k"
  shows "s - t = of_nat k"
proof -
  have "unat s < 4294967296"
    using unsigned_less [of s, where ?'a = nat] by simp
  then have k: "k < 4294967296"
    using assms by simp
  have "unat t \<le> unat s"
    using assms by simp
  then have "unat (s - t) = unat s - unat t"
    by (rule unat_sub32)
  then have "unat (s - t) = unat (of_nat k :: ulong)"
    using assms k by (simp add: unat_of_nat)
  then show ?thesis
    by (simp add: word_unat_eq_iff)
qed

lemma unat_of_nat32:
  "n < 4294967296 \<Longrightarrow> unat (of_nat n :: ulong) = n"
  by (simp add: unat_of_nat)

lemma growth_anchor_default:
  fixes t :: ulong
  assumes t: "unat t = Suc D * 86400 + r" and r: "r < 86400" and bound: "Suc D * 86400 + 58800 < 4294967296"
  shows "unat (makeTime_at t (growthLightStartTimeHour defaultConfig)
                 (growthLightStartTimeMinute defaultConfig) 0 - SECS_PER_DAY)
           = D * 86400 + 58800"
proof -
  have d: "unat t div 86400 = Suc D"
    using t r by simp
  have "86400 \<le> unat t"
    using t by simp
  moreover have "(unat t div 86400) * 86400 + 58800 < 4294967296"
    using bound d by simp
  ultimately have "unat (makeTime_at t (growthLightStartTimeHour defaultConfig)
                 (growthLightStartTimeMinute defaultConfig) 0 - SECS_PER_DAY)
           = (unat t div 86400) * 86400 + 58800 - 86400"
    by (rule growth_start_default)
  then show ?thesis
    using d by simp
qed

section \<open>Index range of the walk of \<^verbatim>\<open>PlantTimer.ino\<close>\<close>

text \<open>
  With the wrap-around test \<^verbatim>\<open>count < GROWTH_LIGHT_PERIODS-1\<close> the walk keeps \<open>count\<close> inside
  the array: whenever it returns, it returns a period index below the number of
  periods and never the error of a read outside the array.
\<close>

lemma unat_byte_succ_le:
  fixes c :: byte
  shows "unat (c + 1) \<le> unat c + 1"
proof -
  have "unat (c + 1) = (unat c + unat (1::byte)) mod 2 ^ LENGTH(8)"
    by (rule unat_word_ariths(1))
  also have "\<dots> \<le> unat c + unat (1::byte)"
    by (rule mod_less_eq_dividend)
  finally show ?thesis
    by simp
qed

lemma growthLoop_in_range:
  assumes "growthLoop b cfg t s c = Some r"
  shows "b = length (growthLightScheme cfg) - 1 \<longrightarrow> unat c < length (growthLightScheme cfg) \<longrightarrow>
         (\<exists>s' c'. r = Inr (s', c') \<and> unat c' < length (growthLightScheme cfg))"
proof (rule growthLoop.raw_induct [where P = "\<lambda>b cfg t s c r.
         b = length (growthLightScheme cfg) - 1 \<longrightarrow> unat c < length (growthLightScheme cfg) \<longrightarrow>
         (\<exists>s' c'. r = Inr (s', c') \<and> unat c' < length (growthLightScheme cfg))", OF _ assms])
  fix loop :: "nat \<Rightarrow> config \<Rightarrow> time_t \<Rightarrow> ulong \<Rightarrow> byte \<Rightarrow> (error + ulong \<times> byte) option"
  fix b cfg t s c r
  assume IH: "\<And>b cfg t s c r. loop b cfg t s c = Some r \<Longrightarrow>
         b = length (growthLightScheme cfg) - 1 \<longrightarrow> unat c < length (growthLightScheme cfg) \<longrightarrow>
         (\<exists>s' c'. r = Inr (s', c') \<and> unat c' < length (growthLightScheme cfg))"
    and eq: "(if s \<le> t then
        (if unat c < length (growthLightScheme cfg) then
           (if s + scast (growthLightScheme cfg ! unat c) * SECS_PER_MIN \<le> t
            then loop b cfg t
                   (s + scast (growthLightScheme cfg ! unat c) * SECS_PER_MIN)
                   (if unat c < b then c + 1 else 0)
            else loop b cfg t
                   (s + scast (growthLightScheme cfg ! unat c) * SECS_PER_MIN)
                   c)
         else Some (Inl IndexOutOfRange))
      else Some (Inr (s, c))) = Some r"
  show "b = length (growthLightScheme cfg) - 1 \<longrightarrow> unat c < length (growthLightScheme cfg) \<longrightarrow>
         (\<exists>s' c'. r = Inr (s', c') \<and> unat c' < length (growthLightScheme cfg))"
  proof (intro impI)
    assume b: "b = length (growthLightScheme cfg) - 1" and c: "unat c < length (growthLightScheme cfg)"
    have next_c: "unat (if unat c < b then c + 1 else 0) < length (growthLightScheme cfg)"
    proof (cases "unat c < b")
      case True
      then have "unat c + 1 < length (growthLightScheme cfg)"
        using b by simp
      then show ?thesis
        using True unat_byte_succ_le [of c] by simp
    next
      case False
      have "0 < length (growthLightScheme cfg)"
        using c by linarith
      then show ?thesis
        using False by simp
    qed
    show "\<exists>s' c'. r = Inr (s', c') \<and> unat c' < length (growthLightScheme cfg)"
    proof (cases "s \<le> t")
      case False
      then show ?thesis
        using eq c by auto
    next
      case True
      show ?thesis
      proof (cases "s + scast (growthLightScheme cfg ! unat c) * SECS_PER_MIN \<le> t")
        case adv: True
        then have "loop b cfg t (s + scast (growthLightScheme cfg ! unat c) * SECS_PER_MIN)
                     (if unat c < b then c + 1 else 0) = Some r"
          using eq True c by simp
        then show ?thesis
          using IH b next_c by blast
      next
        case stay: False
        then have "loop b cfg t (s + scast (growthLightScheme cfg ! unat c) * SECS_PER_MIN) c = Some r"
          using eq True c by simp
        then show ?thesis
          using IH b c by blast
      qed
    qed
  qed
qed

section \<open>Elapsed bloom days\<close>


section \<open>Properties of the serial command \<^verbatim>\<open>B\<close>\<close>




section \<open>Start-up with a stale bloom start\<close>

text \<open>
  C1. The claim asks that a stored bloom start whose elapsed-day count has reached
  \<open>MAX_BLOOM_DAYS\<close> is cleared at boot and that the bloom scheduler is not activated.
  The theorem runs the bloom section of \<^verbatim>\<open>setup\<close> 130 days after a bloom start stored in
  the EEPROM, with the configuration of \<^verbatim>\<open>PlantTimer.ino\<close>: the elapsed-day count is not
  below \<open>MAX_BLOOM_DAYS\<close>, yet the stored value stays as it was, the bloom walk is done,
  and the alarms for the bloom light and the sleep light are armed.
\<close>

theorem setup_keeps_stale_bloomStart:
  "\<not> elapsedBloomDays (MIN_TIME + 130 * 86400) MIN_TIME <s MAX_BLOOM_DAYS
   \<and> setupBloom defaultConfig (MIN_TIME + 130 * 86400) (bootState MIN_TIME) =
       Some ((bootState MIN_TIME)\<lparr>
         bloomDayCounter := 127,
         bloomLightStatus := True,
         secondsToNextBloomLightSwitch := 36360,
         secondsToNextSleepLightSwitch := 37260,
         pinLight3 := LOW,
         alarms := [(37260, TurnOffSleepLight), (36360, TurnOnBloomLight)]\<rparr>)"
  by code_simp

section \<open>Sleep light window\<close>

text \<open>
  C2. The claim asks that the sleep light is on exactly when the bloom light goes off
  within \<^verbatim>\<open>sleepLightScheme[0]\<close> minutes or went off at most \<^verbatim>\<open>sleepLightScheme[1]\<close> minutes
  ago. The theorem takes the state twelve hours after the bloom start: the light period
  runs and ends in 3600 seconds, which is an hour before the switch-off and outside the
  ten-minute window, yet \<^verbatim>\<open>getSleepLightStatus\<close> answers \<^verbatim>\<open>true\<close> and sets the next sleep
  light switch 4500 seconds ahead.
\<close>

theorem sleepLight_on_far_from_switch:
  "getBloomLightStatus defaultConfig (MIN_TIME + 43200) (bootState MIN_TIME) =
     Some ((bootState MIN_TIME)\<lparr>secondsToNextBloomLightSwitch := 3600\<rparr>)
   \<and> getSleepLightStatus defaultConfig ((bootState MIN_TIME)\<lparr>secondsToNextBloomLightSwitch := 3600\<rparr>) =
     (True, (bootState MIN_TIME)\<lparr>secondsToNextBloomLightSwitch := 3600,
                                 secondsToNextSleepLightSwitch := 4500\<rparr>)"
  by code_simp

section \<open>Calling the bloom walk twice\<close>

text \<open>
  C3. The claim asks that a second computation at the same time returns what the first
  one returned. The theorem calls \<^verbatim>\<open>getBloomLightStatus\<close> twice at the same time, 50000
  seconds after the bloom start: the first call leaves the dark period running and a
  day counter of 0, and the second call, which starts from the globals that the first
  one left, reports the light period running and a day counter of 1.
\<close>

theorem getBloomLightStatus_second_call_differs:
  "getBloomLightStatus defaultConfig (MIN_TIME + 50000) (bootState MIN_TIME) =
     Some ((bootState MIN_TIME)\<lparr>bloomLightStatus := True, secondsToNextBloomLightSwitch := 38200\<rparr>)
   \<and> getBloomLightStatus defaultConfig (MIN_TIME + 50000)
        ((bootState MIN_TIME)\<lparr>bloomLightStatus := True, secondsToNextBloomLightSwitch := 38200\<rparr>) =
     Some ((bootState MIN_TIME)\<lparr>bloomDayCounter := 1, bloomLightStatus := False,
                                secondsToNextBloomLightSwitch := 38200\<rparr>)"
  by code_simp

section \<open>Sign of the seconds to the next switch\<close>

text \<open>
  C4. The claim asks that every scheduler leaves a number of seconds to its next switch
  that is greater than 0. The theorem takes the state five minutes before the bloom
  light goes off (the bloom walk returns 300 seconds): \<^verbatim>\<open>getSleepLightStatus\<close> leaves
  \<^verbatim>\<open>secondsToNextSleepLightSwitch\<close>, a \<^verbatim>\<open>long\<close>, at -45600.
\<close>

theorem sleepLight_seconds_negative:
  "getBloomLightStatus defaultConfig (MIN_TIME + 46500) (bootState MIN_TIME) =
     Some ((bootState MIN_TIME)\<lparr>secondsToNextBloomLightSwitch := 300\<rparr>)
   \<and> sint (secondsToNextSleepLightSwitch
        (snd (getSleepLightStatus defaultConfig ((bootState MIN_TIME)\<lparr>secondsToNextBloomLightSwitch := 300\<rparr>))))
       = - 45600"
  by code_simp

section \<open>Index range of the growth walk\<close>

text \<open>
  C10. The claim asks that every variant of \<^verbatim>\<open>getGrowthLightPeriod\<close> reads
  \<^verbatim>\<open>growthLightScheme\<close> inside the array only. The theorem runs the variant of the older
  files (\<^verbatim>\<open>count < GROWTH_LIGHT_PERIODS\<close>) at 16:20:00 of 1 January 2016: after the fourth
  period \<open>count\<close> is 4 and the next pass reads \<^verbatim>\<open>growthLightScheme[4]\<close>. The variant
  of \<^verbatim>\<open>PlantTimer.ino\<close> returns period 0 and 43200 seconds at the same time.
\<close>

theorem getGrowthLightPeriod_old_reads_past_array:
  "getGrowthLightPeriod_old defaultConfig (MIN_TIME + 58800) (bootState 0) = Some (Inl IndexOutOfRange)
   \<and> getGrowthLightPeriod defaultConfig (MIN_TIME + 58800) (bootState 0) =
       Some (Inr ((bootState 0)\<lparr>secondsToNextGrowthLightSwitch := 43200\<rparr>))"
  by code_simp

section \<open>Exhaust fan throttle and a failed temperature reading\<close>

text \<open>
  C9, as amended. The sketch does not test a reading for failure: a failed reading,
  for which \<^verbatim>\<open>getTempC\<close> returns \<open>DEVICE_DISCONNECTED_C\<close>, is handled as a temperature of
  -127 degrees. With \<open>minRoomTemp\<close> and \<open>minRoomTemp + exhaustFanHysteresis\<close> not
  below -127, a throttled fan stays throttled and nothing changes, and a fan that is
  not throttled gets throttled: the relay is switched on and \<open>fanThrottleActive\<close> is set.
\<close>

theorem fanThrottle_failed_reading:
  assumes "- 127 \<le> sint (minRoomTemp cfg)"
    and "- 127 \<le> sint (minRoomTemp cfg + exhaustFanHysteresis cfg)"
  shows "fanThrottleStep cfg DEVICE_DISCONNECTED_C DEVICE_DISCONNECTED_C st =
           (if fanThrottleActive st then st
            else st\<lparr>pinAirOutletThrottle := RELAYON, fanThrottleActive := True\<rparr>)"
proof -
  have "real_of_int (- 127) \<le> real_of_int (sint (minRoomTemp cfg))"
    using assms(1) by (simp only: of_int_le_iff)
  then have a: "- 127 \<le> (signed (minRoomTemp cfg) :: real)"
    by simp
  have "real_of_int (- 127) \<le> real_of_int (sint (minRoomTemp cfg + exhaustFanHysteresis cfg))"
    using assms(2) by (simp only: of_int_le_iff)
  then have b: "- 127 \<le> (signed (minRoomTemp cfg + exhaustFanHysteresis cfg) :: real)"
    by simp
  show ?thesis
    using a b by (simp add: fanThrottleStep_def DEVICE_DISCONNECTED_C_def)
qed

theorem fanThrottle_failed_reading_witness:
  "- 127 \<le> sint (minRoomTemp defaultConfig)
   \<and> - 127 \<le> sint (minRoomTemp defaultConfig + exhaustFanHysteresis defaultConfig)
   \<and> fanThrottleStep defaultConfig DEVICE_DISCONNECTED_C DEVICE_DISCONNECTED_C
        ((bootState 0)\<lparr>fanThrottleActive := True, pinAirOutletThrottle := RELAYON\<rparr>)
       = (bootState 0)\<lparr>fanThrottleActive := True, pinAirOutletThrottle := RELAYON\<rparr>
   \<and> fanThrottleStep defaultConfig DEVICE_DISCONNECTED_C DEVICE_DISCONNECTED_C (bootState 0)
       = (bootState 0)\<lparr>pinAirOutletThrottle := RELAYON, fanThrottleActive := True\<rparr>"
proof -
  have h1: "- 127 \<le> sint (minRoomTemp defaultConfig)"
    by (simp add: defaultConfig_def)
  have h2: "- 127 \<le> sint (minRoomTemp defaultConfig + exhaustFanHysteresis defaultConfig)"
    by (simp add: defaultConfig_def)
  show ?thesis
    using h1 h2
      fanThrottle_failed_reading [OF h1 h2, of "(bootState 0)\<lparr>fanThrottleActive := True, pinAirOutletThrottle := RELAYON\<rparr>"]
      fanThrottle_failed_reading [OF h1 h2, of "bootState 0"]
    by (simp add: bootState_def)
qed

text \<open>
  C9 as stated fails: from the state after power-up (fan not throttled) a failed reading
  sets \<open>fanThrottleActive\<close>.
\<close>

theorem fanThrottle_failed_reading_counterexample:
  "fanThrottleActive (fanThrottleStep defaultConfig DEVICE_DISCONNECTED_C DEVICE_DISCONNECTED_C (bootState 0))
     \<noteq> fanThrottleActive (bootState 0)"
  by (simp add: fanThrottleStep_def defaultConfig_def DEVICE_DISCONNECTED_C_def bootState_def)

section \<open>The bloom day counter\<close>

text \<open>
  C6. In one pass of the loop \<open>bloomDayCounter\<close> is incremented exactly when the dark
  period was running and the pass ends it (the fold from light off to light on); in
  every other pass, also the one that ends the light period, it keeps its value. From
  the globals at power-up (counter 0, \<open>bloomLightStatus\<close> false), one computation at
  exactly \<open>N\<close> full cycles after the bloom start, with \<open>N\<close> not beyond
  \<open>startOfDaytimeReduction\<close> so that no day-length modification is applied, returns a
  counter of \<open>N\<close>, with the light period running and a whole light period to go.
\<close>

theorem bloomDayCounter_counts_cycles:
  fixes cfg :: config and S :: ulong and N :: nat
  assumes pos_on: "0 <s fst (bloomLightScheme cfg)"
    and pos_off: "0 <s snd (bloomLightScheme cfg)"
    and reach: "N \<le> unat (startOfDaytimeReduction cfg)"
    and bound: "unat S + N * (60 * unat (fst (bloomLightScheme cfg)) + 60 * unat (snd (bloomLightScheme cfg)))
                  + 60 * unat (fst (bloomLightScheme cfg)) < 4294967296"
  shows "snd (snd (bloomBody cfg timeNow (s, status, counter))) =
           (if status \<and> \<not> fst (snd (bloomBody cfg timeNow (s, status, counter)))
            then counter + 1 else counter)
         \<and> getBloomLightStatus cfg
             (S + of_nat (N * (60 * unat (fst (bloomLightScheme cfg)) + 60 * unat (snd (bloomLightScheme cfg)))))
             (bootState S) =
           Some ((bootState S)\<lparr>bloomDayCounter := of_nat N,
                  secondsToNextBloomLightSwitch := scast (fst (bloomLightScheme cfg)) * SECS_PER_MIN\<rparr>)"
proof
  show "snd (snd (bloomBody cfg timeNow (s, status, counter))) =
           (if status \<and> \<not> fst (snd (bloomBody cfg timeNow (s, status, counter)))
            then counter + 1 else counter)"
    by (simp add: bloomBody_def Let_def)
next
  let ?on = "unat (fst (bloomLightScheme cfg))"
  let ?off = "unat (snd (bloomLightScheme cfg))"
  let ?t = "S + of_nat (N * (60 * ?on + 60 * ?off))"
  let ?onS = "scast (fst (bloomLightScheme cfg)) * SECS_PER_MIN :: ulong"
  have t: "unat ?t = unat S + N * (60 * ?on + 60 * ?off)"
    using bound by (intro unat_plus_of_nat) simp
  have "\<exists>s' c'. bloomLoop cfg ?t (S, False, 0) = Some (s', False, c')
                 \<and> unat s' = unat ?t + 60 * ?on \<and> unat c' = N"
    using pos_on pos_off reach bound t
  proof (rule bloomLoop_cycles)
    show "0 \<le> N" by simp
    show "unat S = unat S + 0 * (60 * ?on + 60 * ?off)" by simp
    show "unat (0 :: byte) = 0" by simp
  qed
  then obtain s' c' where loop: "bloomLoop cfg ?t (S, False, 0) = Some (s', False, c')"
    and s': "unat s' = unat ?t + 60 * ?on" and c': "unat c' = N"
    by blast
  have "of_nat (unat c') = c'"
    by simp
  then have c_eq: "c' = of_nat N"
    using c' by simp
  have "unat ?t \<le> unat s'"
    using s' by simp
  then have "unat (s' - ?t) = unat s' - unat ?t"
    by (rule unat_sub32)
  then have "unat (s' - ?t) = unat ?onS"
    using s' period_secs(1) [OF pos_on] by simp
  then have s_eq: "s' - ?t = ?onS"
    by (simp add: word_unat_eq_iff)
  show "getBloomLightStatus cfg ?t (bootState S) =
           Some ((bootState S)\<lparr>bloomDayCounter := of_nat N, secondsToNextBloomLightSwitch := ?onS\<rparr>)"
    using loop c_eq s_eq by (simp add: getBloomLightStatus_def bootState_def)
qed

theorem bloomDayCounter_counts_cycles_witness:
  "0 <s fst (bloomLightScheme defaultConfig)
   \<and> 0 <s snd (bloomLightScheme defaultConfig)
   \<and> (3::nat) \<le> unat (startOfDaytimeReduction defaultConfig)
   \<and> unat MIN_TIME + 3 * (60 * unat (fst (bloomLightScheme defaultConfig))
                            + 60 * unat (snd (bloomLightScheme defaultConfig)))
         + 60 * unat (fst (bloomLightScheme defaultConfig)) < 4294967296
   \<and> getBloomLightStatus defaultConfig (MIN_TIME + 3 * 88200) (bootState MIN_TIME) =
       Some ((bootState MIN_TIME)\<lparr>bloomDayCounter := 3, secondsToNextBloomLightSwitch := 46800\<rparr>)"
proof -
  have h1: "0 <s fst (bloomLightScheme defaultConfig)"
    by (simp add: defaultConfig_def word_sless_alt)
  have h2: "0 <s snd (bloomLightScheme defaultConfig)"
    by (simp add: defaultConfig_def word_sless_alt)
  have h3: "(3::nat) \<le> unat (startOfDaytimeReduction defaultConfig)"
    by (simp add: defaultConfig_def)
  have h4: "unat MIN_TIME + 3 * (60 * unat (fst (bloomLightScheme defaultConfig))
                            + 60 * unat (snd (bloomLightScheme defaultConfig)))
         + 60 * unat (fst (bloomLightScheme defaultConfig)) < 4294967296"
    by (simp add: defaultConfig_def MIN_TIME_def)
  have "getBloomLightStatus defaultConfig
             (MIN_TIME + of_nat (3 * (60 * unat (fst (bloomLightScheme defaultConfig))
                                      + 60 * unat (snd (bloomLightScheme defaultConfig)))))
             (bootState MIN_TIME) =
           Some ((bootState MIN_TIME)\<lparr>bloomDayCounter := of_nat 3,
                  secondsToNextBloomLightSwitch := scast (fst (bloomLightScheme defaultConfig)) * SECS_PER_MIN\<rparr>)"
    using bloomDayCounter_counts_cycles [OF h1 h2 h3 h4] by blast
  then have "getBloomLightStatus defaultConfig (MIN_TIME + 3 * 88200) (bootState MIN_TIME) =
       Some ((bootState MIN_TIME)\<lparr>bloomDayCounter := 3, secondsToNextBloomLightSwitch := 46800\<rparr>)"
    by (simp add: defaultConfig_def SECS_PER_MIN_def)
  then show ?thesis
    using h1 h2 h3 h4 by blast
qed

section \<open>Termination of the bloom walk\<close>

text \<open>
  C7, as amended. With both periods positive the bloom walk returns whenever the
  day-length reduction is smaller than a whole cycle (light period plus dark period)
  and \<open>timeNow\<close> leaves room for one more pass below \<open>2 ^ 32\<close>; this holds for every
  bloom start, from any value of the globals \<open>bloomLightStatus\<close> and \<open>bloomDayCounter\<close>,
  and with the modifications applied at every fold. A reduction that wraps the sum
  below 0 leaves it above \<open>timeNow\<close>, so the loop ends at its next test.
\<close>

theorem getBloomLightStatus_returns:
  assumes "0 <s fst (bloomLightScheme cfg)" and "0 <s snd (bloomLightScheme cfg)"
    and "unat (reductionOfDaytimeInMinutes cfg)
           < unat (fst (bloomLightScheme cfg)) + unat (snd (bloomLightScheme cfg))"
    and "unat timeNow + 60 * (unat (fst (bloomLightScheme cfg)) + unat (snd (bloomLightScheme cfg))
           + unat (prolongNighttimeInMinutes cfg)) < 4294967296"
  shows "\<exists>st'. getBloomLightStatus cfg timeNow st = Some st'"
proof -
  from assms have "\<exists>r. bloomLoop cfg timeNow (bloomStart st, bloomLightStatus st, bloomDayCounter st) = Some r"
    by (rule bloomLoop_returns)
  then obtain r where "bloomLoop cfg timeNow (bloomStart st, bloomLightStatus st, bloomDayCounter st) = Some r"
    by blast
  then show ?thesis
    by (cases r) (simp add: getBloomLightStatus_def)
qed

theorem getBloomLightStatus_returns_witness:
  "0 <s fst (bloomLightScheme defaultConfig) \<and> 0 <s snd (bloomLightScheme defaultConfig)
   \<and> unat (reductionOfDaytimeInMinutes defaultConfig)
           < unat (fst (bloomLightScheme defaultConfig)) + unat (snd (bloomLightScheme defaultConfig))
   \<and> unat (MIN_TIME + 130 * 86400) + 60 * (unat (fst (bloomLightScheme defaultConfig))
           + unat (snd (bloomLightScheme defaultConfig))
           + unat (prolongNighttimeInMinutes defaultConfig)) < 4294967296
   \<and> (\<exists>st'. getBloomLightStatus defaultConfig (MIN_TIME + 130 * 86400) (bootState MIN_TIME) = Some st')"
proof -
  have h1: "0 <s fst (bloomLightScheme defaultConfig)"
    by (simp add: defaultConfig_def word_sless_alt)
  have h2: "0 <s snd (bloomLightScheme defaultConfig)"
    by (simp add: defaultConfig_def word_sless_alt)
  have h3: "unat (reductionOfDaytimeInMinutes defaultConfig)
           < unat (fst (bloomLightScheme defaultConfig)) + unat (snd (bloomLightScheme defaultConfig))"
    by (simp add: defaultConfig_def)
  have h5: "unat (MIN_TIME + 130 * 86400) + 60 * (unat (fst (bloomLightScheme defaultConfig))
           + unat (snd (bloomLightScheme defaultConfig))
           + unat (prolongNighttimeInMinutes defaultConfig)) < 4294967296"
    by (simp add: defaultConfig_def MIN_TIME_def)
  show ?thesis
    using h1 h2 h3 h5 getBloomLightStatus_returns [OF h1 h2 h3 h5]
    by blast
qed

text \<open>
  C7 as stated fails: on \<open>stallConfig\<close> both periods are positive and \<open>timeNow\<close> is after the
  bloom start, and \<^verbatim>\<open>getBloomLightStatus\<close> does not return.
\<close>

theorem bloomLoop_stalls_counterexample:
  "0 <s fst (bloomLightScheme stallConfig) \<and> 0 <s snd (bloomLightScheme stallConfig)
   \<and> bloomStart (bootState MIN_TIME) \<le> MIN_TIME + 120
   \<and> getBloomLightStatus stallConfig (MIN_TIME + 120) (bootState MIN_TIME) = None"
proof -
  have "bloomLoop stallConfig (MIN_TIME + 120) (MIN_TIME, False, 0) = None"
  proof (cases "bloomLoop stallConfig (MIN_TIME + 120) (MIN_TIME, False, 0)")
    case None
    then show ?thesis .
  next
    case (Some y)
    then have False
      using stall_cycle [OF Some] by simp
    then show ?thesis ..
  qed
  then show ?thesis
    by (simp add: getBloomLightStatus_def bootState_def stallConfig_def defaultConfig_def MIN_TIME_def
        word_sless_alt)
qed

section \<open>The growth light scenario\<close>

text \<open>
  C5. With \<^verbatim>\<open>growthLightScheme = {720, 330, 60, 330}\<close> and the start time 16:20, on every
  day but the first of the epoch and as long as the timestamps stay below \<open>2 ^ 32\<close>:
  at 16:20:00 \<^verbatim>\<open>getGrowthLightPeriod\<close> returns period 0 and 43200 seconds to the next
  switch; at 04:19:00 of the next morning it still returns period 0 (with 60 seconds to
  go); at 04:20:00 it returns period 1 and 19800 seconds. Day \<open>Suc d\<close> begins at
  \<open>Suc d * 86400\<close>, 16:20:00 is 58800 seconds and 04:20:00 is 15600 seconds after midnight.
\<close>

theorem growthLight_scenario:
  assumes d: "d \<le> 49707"
  shows "getGrowthLightPeriod defaultConfig (of_nat (Suc d * 86400 + 58800)) st =
           Some (Inr (st\<lparr>secondsToNextGrowthLightSwitch := 43200, currentGrowthLightPeriod := 0\<rparr>))
       \<and> getGrowthLightPeriod defaultConfig (of_nat (Suc (Suc d) * 86400 + 15540)) st =
           Some (Inr (st\<lparr>secondsToNextGrowthLightSwitch := 60, currentGrowthLightPeriod := 0\<rparr>))
       \<and> getGrowthLightPeriod defaultConfig (of_nat (Suc (Suc d) * 86400 + 15600)) st =
           Some (Inr (st\<lparr>secondsToNextGrowthLightSwitch := 19800, currentGrowthLightPeriod := 1\<rparr>))"
proof -
  have day: "d * 86400 \<le> 49707 * 86400"
    using d by (rule mult_le_mono1)
  have lim: "GROWTH_LIGHT_PERIODS defaultConfig = 4"
    by (simp add: GROWTH_LIGHT_PERIODS_def defaultConfig_def)
  let ?start = "\<lambda>t. makeTime_at t (growthLightStartTimeHour defaultConfig)
                 (growthLightStartTimeMinute defaultConfig) 0 - SECS_PER_DAY"
  have a: "getGrowthLightPeriod defaultConfig (of_nat (Suc d * 86400 + 58800)) st =
           Some (Inr (st\<lparr>secondsToNextGrowthLightSwitch := 43200, currentGrowthLightPeriod := 0\<rparr>))"
  proof -
    define t :: ulong where "t = of_nat (Suc d * 86400 + 58800)"
    have t: "unat t = Suc d * 86400 + 58800"
      unfolding t_def using day by (intro unat_of_nat32) simp
    have s0: "unat (?start t) = d * 86400 + 58800"
      using t day by (intro growth_anchor_default [where r = 58800]) simp_all
    have "\<exists>s'. growthLoop 3 defaultConfig t (?start t) 0 = Some (Inr (s', 0))
               \<and> unat s' = unat (?start t) + 129600"
      using t s0 day by (intro growth_walk_full_day) simp_all
    then obtain s' where loop: "growthLoop 3 defaultConfig t (?start t) 0 = Some (Inr (s', 0))"
      and s': "unat s' = unat (?start t) + 129600"
      by blast
    have "unat s' = unat t + 43200"
      using s' s0 t by simp
    then have "s' - t = of_nat 43200"
      by (rule word_diff_from_unat)
    then have "getGrowthLightPeriod defaultConfig t st =
           Some (Inr (st\<lparr>secondsToNextGrowthLightSwitch := 43200, currentGrowthLightPeriod := 0\<rparr>))"
      using loop by (simp add: getGrowthLightPeriod_def growthWalk_def growthResult_def lim)
    then show ?thesis
      by (simp only: t_def)
  qed
  have b: "getGrowthLightPeriod defaultConfig (of_nat (Suc (Suc d) * 86400 + 15540)) st =
           Some (Inr (st\<lparr>secondsToNextGrowthLightSwitch := 60, currentGrowthLightPeriod := 0\<rparr>))"
  proof -
    define t :: ulong where "t = of_nat (Suc (Suc d) * 86400 + 15540)"
    have t: "unat t = Suc (Suc d) * 86400 + 15540"
      unfolding t_def using day by (intro unat_of_nat32) simp
    have s0: "unat (?start t) = Suc d * 86400 + 58800"
      using t day by (intro growth_anchor_default [where r = 15540]) simp_all
    have "\<exists>s'. growthLoop 3 defaultConfig t (?start t) 0 = Some (Inr (s', 0))
               \<and> unat s' = unat (?start t) + 43200"
      using t s0 day by (intro growth_walk_first_period) simp_all
    then obtain s' where loop: "growthLoop 3 defaultConfig t (?start t) 0 = Some (Inr (s', 0))"
      and s': "unat s' = unat (?start t) + 43200"
      by blast
    have "unat s' = unat t + 60"
      using s' s0 t by simp
    then have "s' - t = of_nat 60"
      by (rule word_diff_from_unat)
    then have "getGrowthLightPeriod defaultConfig t st =
           Some (Inr (st\<lparr>secondsToNextGrowthLightSwitch := 60, currentGrowthLightPeriod := 0\<rparr>))"
      using loop by (simp add: getGrowthLightPeriod_def growthWalk_def growthResult_def lim)
    then show ?thesis
      by (simp only: t_def)
  qed
  have c: "getGrowthLightPeriod defaultConfig (of_nat (Suc (Suc d) * 86400 + 15600)) st =
           Some (Inr (st\<lparr>secondsToNextGrowthLightSwitch := 19800, currentGrowthLightPeriod := 1\<rparr>))"
  proof -
    define t :: ulong where "t = of_nat (Suc (Suc d) * 86400 + 15600)"
    have t: "unat t = Suc (Suc d) * 86400 + 15600"
      unfolding t_def using day by (intro unat_of_nat32) simp
    have s0: "unat (?start t) = Suc d * 86400 + 58800"
      using t day by (intro growth_anchor_default [where r = 15600]) simp_all
    have "\<exists>s'. growthLoop 3 defaultConfig t (?start t) 0 = Some (Inr (s', 1))
               \<and> unat s' = unat (?start t) + 63000"
      using t s0 day by (intro growth_walk_second_period) simp_all
    then obtain s' where loop: "growthLoop 3 defaultConfig t (?start t) 0 = Some (Inr (s', 1))"
      and s': "unat s' = unat (?start t) + 63000"
      by blast
    have "unat s' = unat t + 19800"
      using s' s0 t by simp
    then have "s' - t = of_nat 19800"
      by (rule word_diff_from_unat)
    then have "getGrowthLightPeriod defaultConfig t st =
           Some (Inr (st\<lparr>secondsToNextGrowthLightSwitch := 19800, currentGrowthLightPeriod := 1\<rparr>))"
      using loop by (simp add: getGrowthLightPeriod_def growthWalk_def growthResult_def lim)
    then show ?thesis
      by (simp only: t_def)
  qed
  show ?thesis
    using a b c by blast
qed

theorem growthLight_scenario_witness:
  "(16800::nat) \<le> 49707
   \<and> getGrowthLightPeriod defaultConfig (1451606400 + 58800) (bootState 0) =
       Some (Inr ((bootState 0)\<lparr>secondsToNextGrowthLightSwitch := 43200, currentGrowthLightPeriod := 0\<rparr>))
   \<and> getGrowthLightPeriod defaultConfig (1451606400 + 86400 + 15540) (bootState 0) =
       Some (Inr ((bootState 0)\<lparr>secondsToNextGrowthLightSwitch := 60, currentGrowthLightPeriod := 0\<rparr>))
   \<and> getGrowthLightPeriod defaultConfig (1451606400 + 86400 + 15600) (bootState 0) =
       Some (Inr ((bootState 0)\<lparr>secondsToNextGrowthLightSwitch := 19800, currentGrowthLightPeriod := 1\<rparr>))"
proof -
  have h: "(16800::nat) \<le> 49707"
    by simp
  show ?thesis
    using h growthLight_scenario [OF h, of "bootState 0"] by simp
qed

end
